theory Spec2Isabelle
  imports Main "HOL-Library.AList"
begin

section \<open>Python strings\<close>

text \<open>
  Strings of \<^verbatim>\<open>menu.py\<close> are modelled as \<^typ>\<open>string\<close>: a list of characters,
  each a code point below 256. The operations below are the \<^verbatim>\<open>str\<close> methods and the
  \<^verbatim>\<open>re.sub\<close> calls the module uses, written out as the interpreter performs them.
\<close>

abbreviation NL :: char where "NL \<equiv> CHR 0x0A"
abbreviation CR :: char where "CR \<equiv> CHR 0x0D"

datatype error = ValueError | IndexError | AttributeError

text \<open>\<^verbatim>\<open>sep.join(parts)\<close>\<close>

fun join :: "string \<Rightarrow> string list \<Rightarrow> string" where
  "join sep [] = []"
| "join sep [x] = x"
| "join sep (x # y # ys) = x @ sep @ join sep (y # ys)"

text \<open>\<^verbatim>\<open>s.split(c)\<close> for a separator of one character: the result is never empty.\<close>

fun split :: "char \<Rightarrow> string \<Rightarrow> string list" where
  "split c [] = [[]]"
| "split c (x # xs) =
     (if x = c then [] # split c xs
      else (case split c xs of [] \<Rightarrow> [[x]] | p # ps \<Rightarrow> (x # p) # ps))"

text \<open>
  \<^verbatim>\<open>s.replace(old, new)\<close>: the occurrences of \<open>old\<close> are found from left to right and
  do not overlap. For an empty \<open>old\<close> Python inserts \<open>new\<close> before every character and
  at the end.
\<close>

fun replace_ne :: "string \<Rightarrow> string \<Rightarrow> string \<Rightarrow> string" where
  "replace_ne old new [] = []"
| "replace_ne old new (c # cs) =
     (if old \<noteq> [] \<and> take (length old) (c # cs) = old
      then new @ replace_ne old new (drop (length old) (c # cs))
      else c # replace_ne old new cs)"

definition replace :: "string \<Rightarrow> string \<Rightarrow> string \<Rightarrow> string" where
  "replace old new s =
     (if old = [] then new @ concat (map (\<lambda>c. c # new) s) else replace_ne old new s)"

text \<open>
  \<^verbatim>\<open>s.lower()\<close>: below 256 the characters with a lower case of their own are the
  letters A to Z (65 to 90) and the letters from 192 to 222 except the multiplication
  sign 215; the lower case of each is 32 further on.
\<close>

definition lower_char :: "char \<Rightarrow> char" where
  "lower_char c =
     (let n = (of_char c :: nat)
      in if (65 \<le> n \<and> n \<le> 90) \<or> (192 \<le> n \<and> n \<le> 222 \<and> n \<noteq> 215)
         then char_of (n + 32) else c)"

definition lower :: "string \<Rightarrow> string" where
  "lower s = map lower_char s"

text \<open>
  \<^verbatim>\<open>s.lstrip()\<close> removes the leading whitespace; below 256 the whitespace characters are
  9 to 13, 28 to 32, 133 and 160.
\<close>

definition isspace :: "char \<Rightarrow> bool" where
  "isspace c =
     (let n = (of_char c :: nat)
      in (9 \<le> n \<and> n \<le> 13) \<or> (28 \<le> n \<and> n \<le> 32) \<or> n = 133 \<or> n = 160)"

definition lstrip :: "string \<Rightarrow> string" where
  "lstrip s = dropWhile isspace s"

section \<open>unwrapText\<close>

definition unwrapText :: "string \<Rightarrow> string" where
  "unwrapText text =
     (let text1 = replace [NL] [] text;
          text2 = lstrip text1;
          text3 = ((replace ''  '' '' '') ^^ 10) text2;
          text4 = replace [CR] [NL] text3;
          text5 = replace [NL, CHR '' ''] [NL] text4
      in text5)"

section \<open>The shortcut configuration\<close>

text \<open>
  \<^verbatim>\<open>iep.config.shortcuts\<close> is a dictionary from the path name of an action to a string
  holding its shortcuts, separated by a comma. It is an association list here, in the
  dictionary's iteration order; \<^const>\<open>map_of\<close> looks a key up,
  \<^const>\<open>AList.update\<close> assigns (a new key goes to the end) and
  \<^const>\<open>AList.delete\<close> is \<^verbatim>\<open>del\<close>.
\<close>

type_synonym config = "(string \<times> string) list"

text \<open>
  \<^verbatim>\<open>getShortcut(fullName)\<close> for a name given as a string. The tuple it returns is the
  list of its components.
\<close>

definition getShortcut :: "config \<Rightarrow> string \<Rightarrow> string list" where
  "getShortcut shortcuts fullName =
     (case map_of shortcuts fullName of
        None \<Rightarrow> [[], []]
      | Some shortcut \<Rightarrow>
          if count_list shortcut (CHR '','') \<noteq> 0
          then split (CHR '','') shortcut
          else [shortcut, []])"


section \<open>Path names of menus and actions\<close>

text \<open>
  \<^verbatim>\<open>re.sub('\(.*\)', '', s)\<close>: a match starts at an opening bracket and, being greedy,
  ends at the last closing bracket of the same line (the dot matches no newline); the
  search goes on after the match. \<open>hide_skip cs\<close> is the number of characters of \<open>cs\<close>
  up to that closing bracket, or 0 when the line has none.
\<close>

definition hide_skip :: "string \<Rightarrow> nat" where
  "hide_skip cs =
     length (dropWhile (\<lambda>x. x \<noteq> CHR '')'') (rev (takeWhile (\<lambda>x. x \<noteq> NL) cs)))"

fun hide_brackets :: "string \<Rightarrow> string" where
  "hide_brackets [] = []"
| "hide_brackets (c # cs) =
     (if c = CHR ''('' \<and> hide_skip cs \<noteq> 0
      then hide_brackets (drop (hide_skip cs) cs)
      else c # hide_brackets cs)"

text \<open>
  The character class \<^verbatim>\<open>[^a-zA-z_0-9]\<close>: the range \<^verbatim>\<open>A-z\<close> runs from 65 to 122, so
  it holds the six characters between \<open>Z\<close> and \<open>a\<close> too. \<open>valid_char\<close> is the complement
  of the class, the characters that \<^verbatim>\<open>re.sub\<close> keeps.
\<close>

definition valid_char :: "char \<Rightarrow> bool" where
  "valid_char c =
     (let n = (of_char c :: nat)
      in (97 \<le> n \<and> n \<le> 122) \<or> (65 \<le> n \<and> n \<le> 122) \<or> c = CHR ''_'' \<or> (48 \<le> n \<and> n \<le> 57))"

text \<open>\<^verbatim>\<open>re.sub('[^a-zA-z_0-9]', '', s, count)\<close> for a positive \<open>count\<close>.\<close>

fun sub_invalid :: "nat \<Rightarrow> string \<Rightarrow> string" where
  "sub_invalid n [] = []"
| "sub_invalid n (c # cs) =
     (if valid_char c then c # sub_invalid n cs
      else if n = 0 then c # cs
      else sub_invalid (n - 1) cs)"

text \<open>\<^verbatim>\<open>Menu._createMenuPathName\<close>; \<^verbatim>\<open>name[0]\<close> raises on the empty string.\<close>

definition createMenuPathName :: "string \<Rightarrow> error + string" where
  "createMenuPathName name =
     (let name1 = hide_brackets name;
          name2 = replace '' '' ''_'' name1
      in case name2 of
           [] \<Rightarrow> Inl IndexError
         | c # _ \<Rightarrow>
             (let name3 = (if c \<in> set ''0123456789_'' then ''_'' @ name2 else name2);
                  name4 = filter valid_char name3
              in Inr (lower name4)))"

text \<open>
  A value of a menu item: \<^verbatim>\<open>None\<close>, a truth value, an integer or a string
  (the values \<^verbatim>\<open>menu.py\<close> passes to \<^verbatim>\<open>addGroupItem\<close>). As keys of a dictionary
  \<^verbatim>\<open>True\<close> and 1 are one key, and so are \<^verbatim>\<open>False\<close> and 0; \<open>dict_key\<close> gives the
  integer for both.
\<close>

datatype pyval = PyNone | PyBool bool | PyInt int | PyStr string

fun dict_key :: "pyval \<Rightarrow> pyval" where
  "dict_key (PyBool b) = PyInt (if b then 1 else 0)"
| "dict_key v = v"

datatype menu_class =
  FileMenu | EditMenu | ViewMenu | SettingsMenu | ShellMenu | RunMenu | ToolsMenu | HelpMenu
  | IndentationMenu | EdgeColumnMenu | QtThemeMenu | ShellContextMenu

text \<open>
  A \<^verbatim>\<open>Menu\<close> object: its class, its title, its \<^verbatim>\<open>menuPath\<close> attribute, the titles of
  the \<^verbatim>\<open>QMenu\<close> objects above it (its parent first) and its \<^verbatim>\<open>_groups\<close> dictionary,
  from a group to the dictionary from values to actions. An action is named by its
  address in the store of \<open>state\<close> below.
\<close>

record menu =
  cls :: menu_class
  title :: string
  menu_menuPath :: string
  ancestors :: "string list"
  groups :: "(string \<times> (pyval \<times> nat) list) list"

text \<open>
  \<^verbatim>\<open>Menu.__init__(parent, name)\<close> up to the call of \<^verbatim>\<open>self.build()\<close>, which each class
  overrides to add its items. The parent is \<open>Some\<close> menu, or \<open>None\<close> for a parent without
  a \<^verbatim>\<open>menuPath\<close> attribute (the menu bar).
\<close>

definition Menu_init :: "menu_class \<Rightarrow> menu option \<Rightarrow> string \<Rightarrow> error + menu" where
  "Menu_init c parent name =
     (if name = [] then Inl ValueError
      else
        (let prefix = (case parent of Some p \<Rightarrow> menu_menuPath p @ ''__'' | None \<Rightarrow> [])
         in case createMenuPathName name of
              Inl e \<Rightarrow> Inl e
            | Inr n \<Rightarrow>
                Inr \<lparr>cls = c, title = name, menu_menuPath = prefix @ n,
                     ancestors = (case parent of Some p \<Rightarrow> title p # ancestors p | None \<Rightarrow> []),
                     groups = []\<rparr>))"

text \<open>
  A \<^verbatim>\<open>QAction\<close>: its text, the titles of the \<^verbatim>\<open>QMenu\<close> objects above it (the menu that
  holds it first), the \<^verbatim>\<open>menuPath\<close> attribute (\<open>None\<close> until it is assigned), the
  shortcuts bound to it and its check state.
\<close>

record action =
  atext :: string
  parents :: "string list"
  menuPath :: "string option"
  shortcuts :: "string list"
  checkable :: bool
  checked :: bool

text \<open>\<^verbatim>\<open>getFullName(action)\<close>: the loop walks up the parents that are menus.\<close>

definition getFullName :: "action \<Rightarrow> error + string" where
  "getFullName a =
     (let text1 = foldl (\<lambda>t ttl. ttl @ ''__'' @ t) (atext a) (parents a);
          text2 = hide_brackets text1;
          text3 = replace '' '' ''_'' text2
      in case text3 of
           [] \<Rightarrow> Inl IndexError
         | c # _ \<Rightarrow>
             (let text4 = (if c \<in> set ''0123456789'' then ''_'' @ text3 else text3);
                  text5 = sub_invalid 999 text4
              in Inr (lower text5)))"

text \<open>\<^verbatim>\<open>getShortcut(action)\<close>: an action is first replaced by its full name.\<close>

definition getShortcut_action :: "config \<Rightarrow> action \<Rightarrow> error + string list" where
  "getShortcut_action cfg a =
     (case getFullName a of Inl e \<Rightarrow> Inl e | Inr n \<Rightarrow> Inr (getShortcut cfg n))"


section \<open>Binding actions to shortcuts\<close>

text \<open>
  The part of the program state the binding reads and writes: the dictionary
  \<^verbatim>\<open>iep.config.shortcuts\<close>, the store of the \<^verbatim>\<open>QAction\<close> objects by address (\<open>fresh\<close> is
  the next free address), and the slots connected to the signal
  \<^verbatim>\<open>iep.keyMapper.keyMappingChanged\<close>. Every slot connected by \<^verbatim>\<open>menu.py\<close> is a
  \<^verbatim>\<open>lambda: iep.keyMapper.setShortcut(a)\<close>, so a slot is the address of its action.
\<close>

record state =
  config :: config
  heap :: "nat \<Rightarrow> action"
  fresh :: nat
  keyMappingChanged :: "nat list"

text \<open>\<^verbatim>\<open>KeyMapper.setShortcut(action)\<close>\<close>

definition setShortcut :: "state \<Rightarrow> nat \<Rightarrow> error + state" where
  "setShortcut st a =
     (case menuPath (heap st a) of
        None \<Rightarrow> Inl AttributeError
      | Some p \<Rightarrow>
          (case map_of (config st) p of
             Some sc \<Rightarrow>
               Inr (st\<lparr>heap := (heap st)(a := (heap st a)\<lparr>shortcuts := split (CHR '','') sc\<rparr>)\<rparr>)
           | None \<Rightarrow> Inr st))"

text \<open>
  \<^verbatim>\<open>keyMappingChanged.emit()\<close> calls the connected slots in the order of connection. An
  exception raised in a slot is reported and the next slot is called.
\<close>

definition emit :: "state \<Rightarrow> state" where
  "emit st =
     foldl (\<lambda>s a. case setShortcut s a of Inl e \<Rightarrow> s | Inr s' \<Rightarrow> s') st (keyMappingChanged st)"

text \<open>\<^verbatim>\<open>Menu._addAction\<close>: \<^verbatim>\<open>QMenu.addAction\<close> creates the action with the menu as parent.\<close>

definition addAction :: "state \<Rightarrow> menu \<Rightarrow> string \<Rightarrow> nat \<times> state" where
  "addAction st m txt =
     (fresh st,
      st\<lparr>heap := (heap st)(fresh st :=
             \<lparr>atext = txt, parents = title m # ancestors m, menuPath = None,
              shortcuts = [], checkable = False, checked = False\<rparr>),
         fresh := Suc (fresh st)\<rparr>)"

text \<open>\<^verbatim>\<open>Menu._connectActionShortcut(a)\<close>\<close>

definition connectActionShortcut :: "state \<Rightarrow> menu \<Rightarrow> nat \<Rightarrow> error + state" where
  "connectActionShortcut st m a =
     (case createMenuPathName (atext (heap st a)) of
        Inl e \<Rightarrow> Inl e
      | Inr n \<Rightarrow>
          (let st1 = st\<lparr>heap := (heap st)(a := (heap st a)\<lparr>menuPath := Some (menu_menuPath m @ ''__'' @ n)\<rparr>)\<rparr>;
               st2 = st1\<lparr>keyMappingChanged := keyMappingChanged st1 @ [a]\<rparr>
           in setShortcut st2 a))"

text \<open>
  \<^verbatim>\<open>Menu.addItem\<close>, \<^verbatim>\<open>Menu.addGroupItem\<close> and \<^verbatim>\<open>Menu.addCheckItem\<close>. The callback they
  connect to the action's \<^verbatim>\<open>triggered\<close> or \<^verbatim>\<open>toggled\<close> signal runs only when the user
  activates the item and is left out. The argument \<open>properties\<close> is the text of the item.
  Each returns the action, the menu and the state.
\<close>

definition addItem :: "state \<Rightarrow> menu \<Rightarrow> string \<Rightarrow> error + (nat \<times> menu \<times> state)" where
  "addItem st m properties =
     (let (a, st1) = addAction st m properties
      in case connectActionShortcut st1 m a of
           Inl e \<Rightarrow> Inl e
         | Inr st2 \<Rightarrow> Inr (a, m, st2))"

definition addGroupItem ::
  "state \<Rightarrow> menu \<Rightarrow> string \<Rightarrow> string \<Rightarrow> pyval \<Rightarrow> bool \<Rightarrow> error + (nat \<times> menu \<times> state)" where
  "addGroupItem st m properties grp val selected =
     (let (a, st1) = addAction st m properties;
          st2 = st1\<lparr>heap := (heap st1)(a := (heap st1 a)\<lparr>checkable := True, checked := selected\<rparr>)\<rparr>;
          acts = (case map_of (groups m) grp of None \<Rightarrow> [] | Some d \<Rightarrow> d);
          m1 = m\<lparr>groups := AList.update grp (AList.update (dict_key val) a acts) (groups m)\<rparr>
      in case connectActionShortcut st2 m1 a of
           Inl e \<Rightarrow> Inl e
         | Inr st3 \<Rightarrow> Inr (a, m1, st3))"

definition addCheckItem ::
  "state \<Rightarrow> menu \<Rightarrow> string \<Rightarrow> bool \<Rightarrow> error + (nat \<times> menu \<times> state)" where
  "addCheckItem st m properties selected =
     (let (a, st1) = addAction st m properties;
          st2 = st1\<lparr>heap := (heap st1)(a := (heap st1 a)\<lparr>checkable := True, checked := selected\<rparr>)\<rparr>
      in case connectActionShortcut st2 m a of
           Inl e \<Rightarrow> Inl e
         | Inr st3 \<Rightarrow> Inr (a, m, st3))"

section \<open>buildMenus\<close>

text \<open>
  The menu bar: the menus added with \<^verbatim>\<open>addMenu\<close>, in order, and its \<^verbatim>\<open>_menus\<close> attribute
  (\<open>None\<close> until it is assigned).
\<close>

record menubar =
  added :: "menu list"
  menus_attr :: "menu list option"

text \<open>
  The list display of \<^verbatim>\<open>buildMenus\<close> constructs its menus from left to right; the first
  constructor that raises ends the call.
\<close>

fun construct :: "(menu_class \<times> string) list \<Rightarrow> error + menu list" where
  "construct [] = Inr []"
| "construct ((c, name) # rest) =
     (case Menu_init c None name of
        Inl e \<Rightarrow> Inl e
      | Inr m \<Rightarrow> (case construct rest of Inl e \<Rightarrow> Inl e | Inr ms \<Rightarrow> Inr (m # ms)))"

definition buildMenus :: "menubar \<Rightarrow> error + menubar" where
  "buildMenus menuBar =
     (case construct
             [(FileMenu, ''File''), (EditMenu, ''Edit''), (ViewMenu, ''View''),
              (SettingsMenu, ''Settings''), (ShellMenu, ''Shell''), (RunMenu, ''Run''),
              (ToolsMenu, ''Tools''), (HelpMenu, ''Help'')] of
        Inl e \<Rightarrow> Inl e
      | Inr menus \<Rightarrow>
          Inr ((foldl (\<lambda>b m. b\<lparr>added := added b @ [m]\<rparr>) menuBar menus)\<lparr>menus_attr := Some menus\<rparr>))"

section \<open>KeyMapModel\<close>

text \<open>
  What the model shows: an action with its text, or a menu with its title and the
  entries \<^verbatim>\<open>actions()\<close> lists for it. A model index is invalid, or holds a row, a column
  and the internal pointer to an entry.
\<close>

datatype entry = QAction string | QMenu string "entry list"

datatype index = Invalid | Index nat nat entry

record keyMapModel =
  root :: "entry option"

text \<open>\<^verbatim>\<open>actions()\<close> is a method of a menu; an action has none.\<close>

fun actions :: "entry \<Rightarrow> error + entry list" where
  "actions (QMenu t es) = Inr es"
| "actions (QAction t) = Inl AttributeError"

definition rowCount :: "keyMapModel \<Rightarrow> index \<Rightarrow> error + nat" where
  "rowCount self parent =
     (case parent of
        Index r c menu \<Rightarrow> (case actions menu of Inl e \<Rightarrow> Inl e | Inr es \<Rightarrow> Inr (length es))
      | Invalid \<Rightarrow>
          (case root self of
             None \<Rightarrow> Inl AttributeError
           | Some menu \<Rightarrow> (case actions menu of Inl e \<Rightarrow> Inl e | Inr es \<Rightarrow> Inr (length es))))"

definition columnCount :: "keyMapModel \<Rightarrow> index \<Rightarrow> nat" where
  "columnCount self parent = 3"


section \<open>KeyMapEditDialog\<close>

text \<open>
  The fields of the dialog the two handlers use: \<^verbatim>\<open>_fullname\<close>, \<^verbatim>\<open>_intro\<close>,
  \<^verbatim>\<open>_isprimary\<close>, the shortcut held by the line edit (\<^verbatim>\<open>_line.text()\<close>) and the text
  of the label.
\<close>

record dialog =
  fullname :: string
  intro :: string
  isprimary :: bool
  line :: string
  label :: string

text \<open>\<^verbatim>\<open>key.replace('__', ' -> ').replace('_', ' ')\<close>\<close>

definition display_name :: "string \<Rightarrow> string" where
  "display_name key = replace ''_'' '' '' (replace ''__'' '' -> '' key)"

text \<open>
  The loop of \<^verbatim>\<open>onEdit\<close> over the keys of the dictionary: it stops at the first key
  with a matching shortcut; the \<^verbatim>\<open>else\<close> branch of the loop runs when there is none.
\<close>

fun onEdit_loop :: "config \<Rightarrow> string \<Rightarrow> string \<Rightarrow> string list \<Rightarrow> string" where
  "onEdit_loop cfg intr shortcut [] = intr"
| "onEdit_loop cfg intr shortcut (key # keys) =
     (let shortcuts = getShortcut cfg key;
          primSec = (if lower (shortcuts ! 0) = lower shortcut then ''primary''
                     else if lower (shortcuts ! 1) = lower shortcut then ''secondary''
                     else [])
      in if primSec \<noteq> []
         then intr @ [NL, NL] @ ''WARNING: combo already in use '' @ ''as '' @ primSec
                @ '' shortcut for:'' @ [NL] @ display_name key
         else onEdit_loop cfg intr shortcut keys)"

definition onEdit :: "config \<Rightarrow> dialog \<Rightarrow> dialog" where
  "onEdit cfg self =
     (let shortcut = line self
      in if shortcut = [] then self\<lparr>label := intro self\<rparr>
         else self\<lparr>label := onEdit_loop cfg (intro self) shortcut (map fst cfg)\<rparr>)"

text \<open>
  The body of the first loop of \<^verbatim>\<open>onAccept\<close>, for one key: it removes the entered
  shortcut from the entry of that key.
\<close>

definition remove_elsewhere :: "string \<Rightarrow> config \<Rightarrow> string \<Rightarrow> config" where
  "remove_elsewhere shortcut cfg key =
     (let shortcuts = getShortcut cfg key;
          tmp = shortcuts;
          hit0 = (lower (shortcuts ! 0) = lower shortcut);
          tmp = (if hit0 then tmp[0 := []] else tmp);
          hit1 = (lower (shortcuts ! 1) = lower shortcut);
          tmp = (if hit1 then tmp[1 := []] else tmp);
          needUpdate = (hit0 \<or> hit1)
      in if needUpdate
         then (let tmp = join '','' tmp;
                   tmp = replace '' '' [] tmp
               in if length tmp = 1 then AList.delete key cfg
                  else AList.update key tmp cfg)
         else cfg)"

text \<open>
  \<^verbatim>\<open>KeyMapEditDialog.onAccept\<close>: the new dictionary. The keys are copied before the
  loop. Closing the dialog changes nothing modelled here.
\<close>

definition onAccept :: "config \<Rightarrow> dialog \<Rightarrow> config" where
  "onAccept cfg self =
     (let shortcut = line self;
          keys = map fst cfg;
          cfg1 = foldl (remove_elsewhere shortcut) cfg keys
      in if fullname self \<noteq> []
         then (let current = (if map_of cfg1 (fullname self) \<noteq> None
                              then getShortcut cfg1 (fullname self)
                              else [[], []]);
                   current = current[(if isprimary self then 0 else 1) := shortcut]
               in AList.update (fullname self) (join '','' current) cfg1)
         else cfg1)"

section \<open>expandVersion\<close>

definition isdigit :: "char \<Rightarrow> bool" where
  "isdigit c = (48 \<le> (of_char c :: nat) \<and> (of_char c :: nat) \<le> 57)"

definition digit_val :: "char \<Rightarrow> nat" where
  "digit_val c = of_char c - 48"

definition digit_char :: "nat \<Rightarrow> char" where
  "digit_char d = char_of (48 + d)"

text \<open>The value of a string of decimal digits, most significant digit first.\<close>

definition dec_val :: "string \<Rightarrow> nat" where
  "dec_val s = foldl (\<lambda>acc c. 10 * acc + digit_val c) 0 s"

text \<open>
  The digits \<^verbatim>\<open>int\<close> accepts after the sign: decimal digits, with single underscores
  allowed between two digits.
\<close>

fun digits_us :: "string \<Rightarrow> bool" where
  "digits_us [] = False"
| "digits_us [c] = isdigit c"
| "digits_us (c # d # cs) =
     (isdigit c \<and> (if d = CHR ''_'' then digits_us cs else digits_us (d # cs)))"

text \<open>
  \<^verbatim>\<open>int(s)\<close> for a string, as Python 3.6 and later read it: whitespace around the
  number is dropped, a sign may come first; \<open>None\<close> is \<^verbatim>\<open>ValueError\<close>. The whitespace
  \<^verbatim>\<open>int\<close> drops is narrower than that of \<^verbatim>\<open>lstrip\<close>: below 256 it is 9 to 13, 32, 133
  and 160, and the separators 28 to 31 make the string invalid. The limit on the number
  of digits that Python 3.11 added to \<^verbatim>\<open>int\<close> is not part of the model.
\<close>

definition int_space :: "char \<Rightarrow> bool" where
  "int_space c =
     (let n = (of_char c :: nat)
      in (9 \<le> n \<and> n \<le> 13) \<or> n = 32 \<or> n = 133 \<or> n = 160)"

definition py_int :: "string \<Rightarrow> int option" where
  "py_int s =
     (let t = rev (dropWhile int_space (rev (dropWhile int_space s)));
          neg = (t \<noteq> [] \<and> hd t = CHR ''-'');
          body = (if t \<noteq> [] \<and> (hd t = CHR ''-'' \<or> hd t = CHR ''+'') then tl t else t)
      in if digits_us body
         then Some (if neg then - int (dec_val (filter isdigit body))
                    else int (dec_val (filter isdigit body)))
         else None)"

text \<open>\<^verbatim>\<open>str(n)\<close> for a natural number.\<close>

fun str_nat :: "nat \<Rightarrow> string" where
  "str_nat n = (if n < 10 then [digit_char n] else str_nat (n div 10) @ [digit_char (n mod 10)])"

declare str_nat.simps [simp del]

text \<open>\<^verbatim>\<open>'%05i' % i\<close>: zeros are put after the sign until the width is 5.\<close>

definition fmt05i :: "int \<Rightarrow> string" where
  "fmt05i i =
     (if i < 0
      then CHR ''-'' # replicate (4 - length (str_nat (nat (- i)))) (CHR ''0'') @ str_nat (nat (- i))
      else replicate (5 - length (str_nat (nat i))) (CHR ''0'') @ str_nat (nat i))"

definition expandVersion :: "string \<Rightarrow> string" where
  "expandVersion version =
     join ''.'' (map (\<lambda>ver. case py_int ver of Some i \<Rightarrow> fmt05i i | None \<Rightarrow> ver)
                    (split (CHR ''.'') version))"

text \<open>The order \<^verbatim>\<open><\<close> of Python on strings: lexicographic, by code point.\<close>

fun str_less :: "string \<Rightarrow> string \<Rightarrow> bool" where
  "str_less [] [] = False"
| "str_less [] (y # ys) = True"
| "str_less (x # xs) [] = False"
| "str_less (x # xs) (y # ys) =
     ((of_char x :: nat) < of_char y \<or> (x = y \<and> str_less xs ys))"

text \<open>
  The numeric reading of a version that C10 compares with: the values of its
  components, compared from the first component on.
\<close>

definition components :: "string \<Rightarrow> nat list" where
  "components version = map dec_val (split (CHR ''.'') version)"

fun ver_less :: "nat list \<Rightarrow> nat list \<Rightarrow> bool" where
  "ver_less [] [] = False"
| "ver_less [] (y # ys) = True"
| "ver_less (x # xs) [] = False"
| "ver_less (x # xs) (y # ys) = (x < y \<or> (x = y \<and> ver_less xs ys))"

definition numeric_version :: "string \<Rightarrow> bool" where
  "numeric_version version =
     list_all (\<lambda>ver. ver \<noteq> [] \<and> list_all isdigit ver \<and> dec_val ver < 100000)
       (split (CHR ''.'') version)"

section \<open>Auxiliary definitions\<close>

text \<open>
  One slot of the signal, as \<^const>\<open>emit\<close> runs it, and the action a slot leaves behind:
  the shortcuts of an action with a path name that is a key of the dictionary are the
  parts of the stored string.
\<close>

definition slot :: "state \<Rightarrow> nat \<Rightarrow> state" where
  "slot s a = (case setShortcut s a of Inl e \<Rightarrow> s | Inr s' \<Rightarrow> s')"

definition bound :: "config \<Rightarrow> action \<Rightarrow> action" where
  "bound cfg x =
     (case menuPath x of
        None \<Rightarrow> x
      | Some p \<Rightarrow>
          (case map_of cfg p of
             None \<Rightarrow> x
           | Some sc \<Rightarrow> x\<lparr>shortcuts := split (CHR '','') sc\<rparr>))"

text \<open>
  The objects of the examples: a state with an empty dictionary and no action, the
  menu \<^verbatim>\<open>FileMenu(menuBar, "File")\<close>, its submenu
  \<^verbatim>\<open>IndentationMenu(self, "Indentation")\<close>, and the eight menus of the menu bar.
\<close>

definition blank_action :: action where
  "blank_action =
     \<lparr>atext = [], parents = [], menuPath = None, shortcuts = [],
      checkable = False, checked = False\<rparr>"

definition state0 :: state where
  "state0 = \<lparr>config = [], heap = (\<lambda>_. blank_action), fresh = 0, keyMappingChanged = []\<rparr>"

definition File_menu :: menu where
  "File_menu =
     \<lparr>cls = FileMenu, title = ''File'', menu_menuPath = ''file'', ancestors = [],
      groups = []\<rparr>"

definition Indentation_menu :: menu where
  "Indentation_menu =
     \<lparr>cls = IndentationMenu, title = ''Indentation'',
      menu_menuPath = ''file__indentation'', ancestors = [''File''], groups = []\<rparr>"

definition eight_menus :: "menu list" where
  "eight_menus =
     map (\<lambda>(c, n). \<lparr>cls = c, title = n, menu_menuPath = lower n, ancestors = [], groups = []\<rparr>)
       [(FileMenu, ''File''), (EditMenu, ''Edit''), (ViewMenu, ''View''),
        (SettingsMenu, ''Settings''), (ShellMenu, ''Shell''), (RunMenu, ''Run''),
        (ToolsMenu, ''Tools''), (HelpMenu, ''Help'')]"

text \<open>
  What \<^verbatim>\<open>_connectActionShortcut\<close> establishes for the action created at the address
  \<open>fresh st\<close> in the menu \<open>m\<close>, with \<open>n\<close> the normalised text of the action: the dictionary
  is the one of \<open>st\<close>, the action's \<^verbatim>\<open>menuPath\<close> is the menu's, two underscores and \<open>n\<close>,
  its shortcuts are the parts of the string stored under that key (none for an absent
  key), and its slot is connected to the signal.
\<close>

definition bound_at :: "state \<Rightarrow> menu \<Rightarrow> string \<Rightarrow> state \<Rightarrow> bool" where
  "bound_at st m n s =
     (config s = config st
      \<and> menuPath (heap s (fresh st)) = Some (menu_menuPath m @ ''__'' @ n)
      \<and> shortcuts (heap s (fresh st)) =
          (case map_of (config st) (menu_menuPath m @ ''__'' @ n) of
             None \<Rightarrow> []
           | Some sc \<Rightarrow> split (CHR '','') sc)
      \<and> fresh st \<in> set (keyMappingChanged s))"

text \<open>The text \<^verbatim>\<open>onEdit\<close> appends to the intro for a key that uses the shortcut.\<close>

definition warning :: "string \<Rightarrow> string \<Rightarrow> string" where
  "warning primSec key =
     [NL, NL] @ ''WARNING: combo already in use as '' @ primSec @ '' shortcut for:'' @ [NL]
       @ display_name key"

text \<open>
  More objects of the examples: a dictionary with three entries, a state that holds it
  and the action Copy of the menu Edit, and a dialog that edits the primary shortcut of
  \<^verbatim>\<open>file__open\<close> with \<^verbatim>\<open>ctrl+ins\<close> entered.
\<close>

definition ex_config :: config where
  "ex_config =
     [(''file__save'', ''Ctrl+S''), (''edit__copy'', ''Ctrl+C,Ctrl+Ins''),
      (''file__save_as'', ''Ctrl+Shift+S'')]"

definition ex_state :: state where
  "ex_state =
     \<lparr>config = ex_config,
      heap = (\<lambda>_. blank_action)
        (0 := \<lparr>atext = ''Copy'', parents = [''Edit''], menuPath = Some ''edit__copy'',
               shortcuts = [], checkable = False, checked = False\<rparr>),
      fresh = 1, keyMappingChanged = [0]\<rparr>"

definition ex_dialog :: dialog where
  "ex_dialog =
     \<lparr>fullname = ''file__open'',
      intro = ''Set the primary shortcut for:'' @ [NL] @ ''file -> open'',
      isprimary = True, line = ''ctrl+ins'', label = []\<rparr>"

text \<open>
  For the dialog: the shortcut \<open>s\<close> is neither the primary nor the secondary shortcut
  of the key \<open>k\<close>, ignoring case; no string stored in the dictionary contains a space;
  and the list \<^verbatim>\<open>tmp\<close> of the first loop of \<^verbatim>\<open>onAccept\<close> before it is joined, the
  shortcuts of a key with those equal to \<open>s\<close> replaced by the empty string.
\<close>

definition unused :: "string \<Rightarrow> config \<Rightarrow> string \<Rightarrow> bool" where
  "unused s cfg k =
     (lower (getShortcut cfg k ! 0) \<noteq> lower s \<and> lower (getShortcut cfg k ! 1) \<noteq> lower s)"

definition no_spaces :: "config \<Rightarrow> bool" where
  "no_spaces cfg = list_all (\<lambda>(k, v). CHR '' '' \<notin> set v) cfg"

definition cleared :: "string \<Rightarrow> string list \<Rightarrow> string list" where
  "cleared s sc =
     (let tmp = (if lower (sc ! 0) = lower s then sc[0 := []] else sc)
      in if lower (sc ! 1) = lower s then tmp[1 := []] else tmp)"

text \<open>
  The decimal digits of \<open>n\<close> at a fixed width \<open>k\<close>, with leading zeros: what
  \<^verbatim>\<open>'%05i'\<close> prints for a number below \<open>10 ^ 5\<close>, at width 5.
\<close>

fun fixed :: "nat \<Rightarrow> nat \<Rightarrow> string" where
  "fixed 0 n = []"
| "fixed (Suc k) n = fixed k (n div 10) @ [digit_char (n mod 10)]"

section \<open>Evaluation rules\<close>

lemma lower_simps [simp]:
  "lower [] = []"
  "lower (c # cs) = lower_char c # lower cs"
  by (simp_all add: lower_def)

lemmas char_eval = lower_char_def char_of_def bit_0 valid_char_def isspace_def

lemma lower_examples:
  "lower ''Ctrl+A'' = ''ctrl+a''"
  "lower [CHR 0xC0, CHR 0xD7, CHR 0xDE, CHR 0xDF] = [CHR 0xE0, CHR 0xD7, CHR 0xFE, CHR 0xDF]"
  by (simp_all add: char_eval)

lemmas name_eval = createMenuPathName_def getFullName_def replace_def hide_skip_def char_eval

section \<open>getShortcut\<close>

lemma length_split: "length (split c s) = Suc (count_list s c)"
  by (induction s) (auto split: list.splits)

lemma getShortcut_at_least_two: "2 \<le> length (getShortcut cfg k)"
  by (simp add: getShortcut_def length_split split: option.splits)

lemma getShortcut_absent: "map_of cfg k = None \<Longrightarrow> getShortcut cfg k = [[], []]"
  by (simp add: getShortcut_def)

lemma getShortcut_no_comma:
  "map_of cfg k = Some s \<Longrightarrow> CHR '','' \<notin> set s \<Longrightarrow> getShortcut cfg k = [s, []]"
  by (simp add: getShortcut_def)

lemma getShortcut_one_comma:
  "map_of cfg k = Some s \<Longrightarrow> count_list s (CHR '','') = 1 \<Longrightarrow>
     getShortcut cfg k = split (CHR '','') s \<and> length (getShortcut cfg k) = 2"
  by (simp add: getShortcut_def length_split)

text \<open>
  Claim C4, at a stored string with two commas. Applying the shortcut \<^verbatim>\<open>Ctrl+,\<close> as
  the primary shortcut of the action \<open>k\<close> in the dialog stores the string \<^verbatim>\<open>Ctrl+,,\<close>;
  for that entry \<^verbatim>\<open>getShortcut\<close> returns the three strings \<^verbatim>\<open>('Ctrl+', '', '')\<close>, not a
  pair of two.
\<close>

theorem getShortcut_three_parts:
  "onAccept [] \<lparr>fullname = ''k'', intro = [], isprimary = True, line = ''Ctrl+,'', label = []\<rparr>
     = [(''k'', ''Ctrl+,,'')]
   \<and> getShortcut [(''k'', ''Ctrl+,,'')] ''k'' = [''Ctrl+'', [], []]
   \<and> length (getShortcut [(''k'', ''Ctrl+,,'')] ''k'') = 3"
  by (simp add: onAccept_def getShortcut_def)

section \<open>Path names\<close>

text \<open>
  Claim C2, at the item \<^verbatim>\<open>2 spaces\<close> that \<^verbatim>\<open>IndentationMenu.build\<close> adds with
  \<^verbatim>\<open>addGroupItem\<close> to the menu Indentation of the menu File. The \<^verbatim>\<open>menuPath\<close> assigned
  at creation is \<^verbatim>\<open>file__indentation___2_spaces\<close>, since the component that starts with
  a digit gets an underscore of its own, and \<^verbatim>\<open>getFullName\<close> of the same action is
  \<^verbatim>\<open>file__indentation__2_spaces\<close>: the two computations of the path name differ.
\<close>

theorem menuPath_getFullName_differ:
  "Menu_init FileMenu None ''File'' = Inr File_menu
   \<and> Menu_init IndentationMenu (Some File_menu) ''Indentation'' = Inr Indentation_menu
   \<and> (case addGroupItem state0 Indentation_menu ''2 spaces'' ''width'' (PyInt 2) False of
        Inl e \<Rightarrow> False
      | Inr (a, m, st) \<Rightarrow>
          menuPath (heap st a) = Some ''file__indentation___2_spaces''
          \<and> getFullName (heap st a) = Inr ''file__indentation__2_spaces'')"
  by (simp add: Menu_init_def File_menu_def Indentation_menu_def name_eval
      addGroupItem_def addAction_def state0_def blank_action_def
      connectActionShortcut_def setShortcut_def)

section \<open>buildMenus\<close>

lemma foldl_added:
  "foldl (\<lambda>b m. b\<lparr>added := added b @ [m]\<rparr>) bar ms = bar\<lparr>added := added bar @ ms\<rparr>"
  by (induction ms arbitrary: bar) simp_all

text \<open>
  Claim C6: \<^verbatim>\<open>buildMenus(menuBar)\<close> returns without an exception; it constructs eight
  menus, titled File, Edit, View, Settings, Shell, Run, Tools and Help in that order,
  appends each of them to the menus of the menu bar, and assigns the same list to the
  attribute \<^verbatim>\<open>_menus\<close> of the menu bar.
\<close>

theorem buildMenus_eight:
  "buildMenus menuBar =
     Inr (menuBar\<lparr>added := added menuBar @ eight_menus, menus_attr := Some eight_menus\<rparr>)
   \<and> length eight_menus = 8
   \<and> map title eight_menus =
       [''File'', ''Edit'', ''View'', ''Settings'', ''Shell'', ''Run'', ''Tools'', ''Help'']"
  by (simp add: buildMenus_def Menu_init_def eight_menus_def foldl_added name_eval
      del: foldl_Cons)

section \<open>KeyMapModel\<close>

text \<open>
  Claim C8: \<^verbatim>\<open>columnCount\<close> is 3 for every parent index; \<^verbatim>\<open>rowCount\<close> is the number of
  actions of the root menu for the invalid index, and the number of actions of the menu
  a valid parent index points to.
\<close>

theorem rowCount_columnCount:
  "columnCount self parent = 3
   \<and> rowCount (self\<lparr>root := Some (QMenu t es)\<rparr>) Invalid = Inr (length es)
   \<and> rowCount self (Index r c (QMenu t es)) = Inr (length es)"
  by (simp add: columnCount_def rowCount_def)

section \<open>setShortcut and the signal\<close>

lemma bound_idem: "bound cfg (bound cfg x) = bound cfg x"
  by (simp add: bound_def split: option.splits)

lemma slot_config: "config (slot s b) = config s"
  by (simp add: slot_def setShortcut_def split: option.splits)

lemma slot_heap: "heap (slot s b) c = (if c = b then bound (config s) (heap s b) else heap s c)"
  by (simp add: slot_def setShortcut_def bound_def split: option.splits)

lemma foldl_slot_config: "config (foldl slot s bs) = config s"
  by (induction bs arbitrary: s) (simp_all add: slot_config)

lemma foldl_slot_heap:
  "heap (foldl slot s bs) a = (if a \<in> set bs then bound (config s) (heap s a) else heap s a)"
proof (induction bs arbitrary: s)
  case Nil
  show ?case by simp
next
  case (Cons b bs)
  show ?case
    by (simp add: Cons.IH slot_config slot_heap bound_idem)
qed

lemma emit_slot: "emit st = foldl slot st (keyMappingChanged st)"
  unfolding emit_def slot_def ..

text \<open>
  Claim C7: for an action with a \<^verbatim>\<open>menuPath\<close>, \<^verbatim>\<open>setShortcut\<close> returns normally and
  never changes \<^verbatim>\<open>iep.config.shortcuts\<close>; when the \<^verbatim>\<open>menuPath\<close> is not a key of the
  dictionary it changes nothing at all; when it is a key, the action's shortcuts become
  the parts of the stored string between its commas, and nothing else of the action and
  no other action changes.
\<close>

theorem setShortcut_frame:
  assumes "menuPath (heap st a) = Some p"
  shows "\<exists>st'. setShortcut st a = Inr st'
           \<and> config st' = config st
           \<and> (p \<notin> set (map fst (config st)) \<longrightarrow> st' = st)
           \<and> (\<forall>sc. map_of (config st) p = Some sc \<longrightarrow>
                  heap st' a = (heap st a)\<lparr>shortcuts := split (CHR '','') sc\<rparr>)
           \<and> (\<forall>b. b \<noteq> a \<longrightarrow> heap st' b = heap st b)"
proof (cases "map_of (config st) p")
  case None
  then show ?thesis using assms by (simp add: setShortcut_def)
next
  case (Some sc)
  then have "p \<in> set (map fst (config st))"
    by (metis map_of_eq_None_iff option.distinct(1) set_map)
  with Some show ?thesis using assms by (simp add: setShortcut_def)
qed

theorem setShortcut_frame_witness:
  "menuPath (heap ex_state 0) = Some ''edit__copy''
   \<and> (\<exists>st'. setShortcut ex_state 0 = Inr st'
          \<and> config st' = ex_config
          \<and> shortcuts (heap st' 0) = [''Ctrl+C'', ''Ctrl+Ins'']
          \<and> heap st' 1 = blank_action)"
proof -
  have h: "menuPath (heap ex_state 0) = Some ''edit__copy''"
    by (simp add: ex_state_def)
  have c: "map_of (config ex_state) ''edit__copy'' = Some ''Ctrl+C,Ctrl+Ins''"
    by (simp add: ex_state_def ex_config_def)
  from setShortcut_frame [OF h] obtain st' where
    "setShortcut ex_state 0 = Inr st'" "config st' = config ex_state"
    "\<forall>sc. map_of (config ex_state) ''edit__copy'' = Some sc \<longrightarrow>
        heap st' 0 = (heap ex_state 0)\<lparr>shortcuts := split (CHR '','') sc\<rparr>"
    "\<forall>b. b \<noteq> 0 \<longrightarrow> heap st' b = heap ex_state b"
    by blast
  with c h show ?thesis by (simp add: ex_state_def)
qed

lemma foldl_slot_signal: "keyMappingChanged (foldl slot s bs) = keyMappingChanged s"
  by (induction bs arbitrary: s) (simp_all add: slot_def setShortcut_def split: option.splits)

lemma emit_rebinds:
  assumes "a \<in> set (keyMappingChanged s)" and "menuPath (heap s a) = Some p"
  shows "heap (emit s) a =
           (case map_of (config s) p of
              None \<Rightarrow> heap s a
            | Some sc \<Rightarrow> (heap s a)\<lparr>shortcuts := split (CHR '','') sc\<rparr>)"
    and "config (emit s) = config s"
    and "a \<in> set (keyMappingChanged (emit s))"
    and "menuPath (heap (emit s) a) = Some p"
  using assms
  by (simp_all add: emit_slot foldl_slot_heap foldl_slot_config foldl_slot_signal bound_def
      split: option.splits)

lemma connect_bound:
  assumes "createMenuPathName (atext (heap s a)) = Inr n"
  shows "connectActionShortcut s m a =
           Inr (slot (s\<lparr>heap := (heap s)(a := (heap s a)\<lparr>menuPath := Some (menu_menuPath m @ ''__'' @ n)\<rparr>),
                        keyMappingChanged := keyMappingChanged s @ [a]\<rparr>) a)"
  using assms by (simp add: connectActionShortcut_def slot_def setShortcut_def split: option.splits)

lemma connect_raises:
  "createMenuPathName (atext (heap s a)) = Inl e \<Longrightarrow> connectActionShortcut s m a = Inl e"
  by (simp add: connectActionShortcut_def)

text \<open>
  Claim C5: when the text of the new item has a path name \<open>n\<close> (the normalisation does
  not raise), each of \<^verbatim>\<open>addItem\<close>, \<^verbatim>\<open>addGroupItem\<close> and \<^verbatim>\<open>addCheckItem\<close> returns the new
  action with its \<^verbatim>\<open>menuPath\<close> set to the menu's \<^verbatim>\<open>menuPath\<close>, two underscores and \<open>n\<close>,
  with its shortcuts set to the parts between commas of the string stored in
  \<^verbatim>\<open>iep.config.shortcuts\<close> under that key, and with its slot connected to
  \<^verbatim>\<open>keyMappingChanged\<close>. Every emission of the signal, in any state, binds every
  connected action again from the dictionary of that state, and keeps it connected
  under the same \<^verbatim>\<open>menuPath\<close>.
\<close>

theorem addItem_binds:
  assumes "createMenuPathName txt = Inr n"
  shows "(\<exists>st1 st2 st3 m2.
            addItem st m txt = Inr (fresh st, m, st1)
            \<and> addGroupItem st m txt grp val sel = Inr (fresh st, m2, st2)
            \<and> addCheckItem st m txt sel = Inr (fresh st, m, st3)
            \<and> bound_at st m n st1 \<and> bound_at st m n st2 \<and> bound_at st m n st3)
         \<and> (\<forall>s a p. a \<in> set (keyMappingChanged s) \<and> menuPath (heap s a) = Some p \<longrightarrow>
              heap (emit s) a =
                (case map_of (config s) p of
                   None \<Rightarrow> heap s a
                 | Some sc \<Rightarrow> (heap s a)\<lparr>shortcuts := split (CHR '','') sc\<rparr>)
              \<and> config (emit s) = config s
              \<and> a \<in> set (keyMappingChanged (emit s))
              \<and> menuPath (heap (emit s) a) = Some p)"
proof
  show "\<exists>st1 st2 st3 m2.
           addItem st m txt = Inr (fresh st, m, st1)
           \<and> addGroupItem st m txt grp val sel = Inr (fresh st, m2, st2)
           \<and> addCheckItem st m txt sel = Inr (fresh st, m, st3)
           \<and> bound_at st m n st1 \<and> bound_at st m n st2 \<and> bound_at st m n st3"
    using assms
    by (simp add: addItem_def addGroupItem_def addCheckItem_def addAction_def connect_bound
        bound_at_def slot_config slot_heap bound_def slot_def setShortcut_def split: option.splits)
  show "\<forall>s a p. a \<in> set (keyMappingChanged s) \<and> menuPath (heap s a) = Some p \<longrightarrow>
           heap (emit s) a =
             (case map_of (config s) p of
                None \<Rightarrow> heap s a
              | Some sc \<Rightarrow> (heap s a)\<lparr>shortcuts := split (CHR '','') sc\<rparr>)
           \<and> config (emit s) = config s
           \<and> a \<in> set (keyMappingChanged (emit s))
           \<and> menuPath (heap (emit s) a) = Some p"
    using emit_rebinds by blast
qed

theorem addItem_binds_witness:
  "createMenuPathName ''Save as'' = Inr ''save_as''
   \<and> (\<exists>st1. addItem ex_state File_menu ''Save as'' = Inr (1, File_menu, st1)
          \<and> menuPath (heap st1 1) = Some ''file__save_as''
          \<and> shortcuts (heap st1 1) = [''Ctrl+Shift+S'']
          \<and> shortcuts (heap (emit (st1\<lparr>config := [(''file__save_as'', ''F12,F11'')]\<rparr>)) 1)
              = [''F12'', ''F11''])"
proof -
  have h: "createMenuPathName ''Save as'' = Inr ''save_as''"
    by (simp add: name_eval)
  from addItem_binds [OF h, of ex_state File_menu]
  obtain st1 where a: "addItem ex_state File_menu ''Save as'' = Inr (fresh ex_state, File_menu, st1)"
    and b: "bound_at ex_state File_menu ''save_as'' st1"
    and e: "\<forall>s a p. a \<in> set (keyMappingChanged s) \<and> menuPath (heap s a) = Some p \<longrightarrow>
              heap (emit s) a =
                (case map_of (config s) p of
                   None \<Rightarrow> heap s a
                 | Some sc \<Rightarrow> (heap s a)\<lparr>shortcuts := split (CHR '','') sc\<rparr>)"
    by blast
  have f: "fresh ex_state = 1" by (simp add: ex_state_def)
  from b f have p: "menuPath (heap st1 1) = Some ''file__save_as''"
    and s: "shortcuts (heap st1 1) = [''Ctrl+Shift+S'']"
    and k: "1 \<in> set (keyMappingChanged st1)"
    by (simp_all add: bound_at_def File_menu_def ex_state_def ex_config_def)
  from e [rule_format, of 1 "st1\<lparr>config := [(''file__save_as'', ''F12,F11'')]\<rparr>" "''file__save_as''"] p k
  have "shortcuts (heap (emit (st1\<lparr>config := [(''file__save_as'', ''F12,F11'')]\<rparr>)) 1)
          = [''F12'', ''F11'']"
    by simp
  with h a f p s show ?thesis by simp
qed

section \<open>onEdit\<close>

lemma warning_not_empty: "warning primSec key \<noteq> []"
  by (simp add: warning_def)

lemma onEdit_loop_cases:
  "(\<not> (\<exists>key\<in>set keys. lower (getShortcut cfg key ! 0) = lower s
                        \<or> lower (getShortcut cfg key ! 1) = lower s)
      \<and> onEdit_loop cfg intr s keys = intr)
   \<or> ((\<exists>key\<in>set keys. lower (getShortcut cfg key ! 0) = lower s
                        \<or> lower (getShortcut cfg key ! 1) = lower s)
      \<and> (\<exists>key\<in>set keys. \<exists>primSec\<in>{''primary'', ''secondary''}.
            onEdit_loop cfg intr s keys = intr @ warning primSec key))"
proof (induction keys)
  case Nil
  show ?case by simp
next
  case (Cons k ks)
  show ?case
  proof (cases "lower (getShortcut cfg k ! 0) = lower s \<or> lower (getShortcut cfg k ! 1) = lower s")
    case True
    then show ?thesis by (auto simp: Let_def warning_def)
  next
    case False
    then show ?thesis using Cons.IH by (auto simp: Let_def)
  qed
qed

text \<open>
  Claim C3: after \<^verbatim>\<open>onEdit\<close> the label differs from the intro text exactly when the
  entered shortcut is not empty and equals, ignoring case, the primary or the secondary
  shortcut that \<^verbatim>\<open>getShortcut\<close> gives for some key of \<^verbatim>\<open>iep.config.shortcuts\<close>; the label
  is then the intro text followed by a warning that names such a key, and it is the
  intro text alone otherwise.
\<close>

theorem onEdit_warning:
  "(label (onEdit cfg self) = intro self \<longleftrightarrow>
      \<not> (line self \<noteq> [] \<and>
         (\<exists>key\<in>set (map fst cfg).
            lower (getShortcut cfg key ! 0) = lower (line self)
            \<or> lower (getShortcut cfg key ! 1) = lower (line self))))
   \<and> (label (onEdit cfg self) = intro self
      \<or> (\<exists>key\<in>set (map fst cfg). \<exists>primSec\<in>{''primary'', ''secondary''}.
            label (onEdit cfg self) = intro self @ warning primSec key))"
proof (cases "line self = []")
  case True
  then show ?thesis by (simp add: onEdit_def)
next
  case False
  then have l: "label (onEdit cfg self) = onEdit_loop cfg (intro self) (line self) (map fst cfg)"
    by (simp add: onEdit_def)
  show ?thesis
    using onEdit_loop_cases [of "map fst cfg" cfg "line self" "intro self"] False
    unfolding l by (auto simp: warning_not_empty)
qed

theorem onEdit_warning_witness:
  "line ex_dialog \<noteq> []
   \<and> lower (getShortcut ex_config ''edit__copy'' ! 1) = lower (line ex_dialog)
   \<and> label (onEdit ex_config ex_dialog) \<noteq> intro ex_dialog
   \<and> label (onEdit ex_config (ex_dialog\<lparr>line := []\<rparr>)) = intro ex_dialog
   \<and> label (onEdit ex_config (ex_dialog\<lparr>line := ''Ctrl+Q''\<rparr>)) = intro ex_dialog"
proof -
  have 1: "line ex_dialog \<noteq> []" by (simp add: ex_dialog_def)
  have 2: "lower (getShortcut ex_config ''edit__copy'' ! 1) = lower (line ex_dialog)"
    by (simp add: ex_dialog_def ex_config_def getShortcut_def char_eval)
  have 3: "''edit__copy'' \<in> set (map fst ex_config)" by (simp add: ex_config_def)
  have 4: "\<not> (\<exists>key\<in>set (map fst ex_config).
              lower (getShortcut ex_config key ! 0) = lower ''Ctrl+Q''
              \<or> lower (getShortcut ex_config key ! 1) = lower ''Ctrl+Q'')"
    by (simp add: ex_config_def getShortcut_def char_eval)
  from onEdit_warning [of ex_config ex_dialog] 1 2 3
  have a: "label (onEdit ex_config ex_dialog) \<noteq> intro ex_dialog" by blast
  from onEdit_warning [of ex_config "ex_dialog\<lparr>line := []\<rparr>"]
  have b: "label (onEdit ex_config (ex_dialog\<lparr>line := []\<rparr>)) = intro ex_dialog" by simp
  from onEdit_warning [of ex_config "ex_dialog\<lparr>line := ''Ctrl+Q''\<rparr>"] 4
  have c: "label (onEdit ex_config (ex_dialog\<lparr>line := ''Ctrl+Q''\<rparr>)) = intro ex_dialog" by simp
  from 1 2 a b c show ?thesis by simp
qed

text \<open>
  A match that needs the lower case of a letter beyond A to Z: the stored shortcut ends in
  the letter 192 and the entered one in its lower case 224.
\<close>

lemma onEdit_latin1:
  "label (onEdit [(''a'', ''Ctrl+'' @ [CHR 0xC0])]
            \<lparr>fullname = ''b'', intro = ''I'', isprimary = True,
             line = ''ctrl+'' @ [CHR 0xE0], label = []\<rparr>)
     = ''I'' @ warning ''primary'' ''a''"
  by code_simp

section \<open>unwrapText\<close>

lemma replace_ne_delete: "replace_ne [c] [] s = filter (\<lambda>x. x \<noteq> c) s"
  by (induction s) auto

lemma replace_ne_char: "replace_ne [c] [d] s = map (\<lambda>x. if x = c then d else x) s"
  by (induction s) auto

lemma filter_replace_ne:
  "filter P old = filter P new \<Longrightarrow> filter P (replace_ne old new s) = filter P s"
proof (induction old new s rule: replace_ne.induct)
  case (1 old new)
  show ?case by simp
next
  case (2 old new c cs)
  show ?case
  proof (cases "old \<noteq> [] \<and> take (length old) (c # cs) = old")
    case True
    then have "c # cs = old @ drop (length old) (c # cs)"
      by (metis append_take_drop_id)
    then have "filter P (c # cs) = filter P old @ filter P (drop (length old) (c # cs))"
      by (metis filter_append)
    with True 2 show ?thesis by simp
  next
    case False
    with 2 show ?thesis by auto
  qed
qed

lemma filter_funpow_replace:
  "filter P old = filter P new \<Longrightarrow> old \<noteq> [] \<Longrightarrow>
     filter P (((replace old new) ^^ n) s) = filter P s"
  by (induction n) (simp_all add: replace_def filter_replace_ne)

lemma lstrip_filter_NL: "lstrip (filter (\<lambda>x. x \<noteq> NL) s) = filter (\<lambda>x. x \<noteq> NL) (lstrip s)"
  by (induction s) (auto simp: lstrip_def isspace_def)

lemma filter_map_cr:
  "filter (\<lambda>c. c \<noteq> CHR '' '') (map (\<lambda>x. if x = CR then NL else x) s) =
     map (\<lambda>x. if x = CR then NL else x) (filter (\<lambda>c. c \<noteq> CHR '' '') s)"
  by (induction s) auto

lemma unwrapText_skeleton:
  "filter (\<lambda>c. c \<noteq> CHR '' '') (unwrapText t) =
     map (\<lambda>x. if x = CR then NL else x)
       (filter (\<lambda>c. c \<noteq> CHR '' '' \<and> c \<noteq> NL) (lstrip t))"
proof -
  let ?P = "\<lambda>c. c \<noteq> CHR '' ''"
  let ?m = "\<lambda>x. if x = CR then NL else x"
  let ?t2 = "lstrip (replace [NL] [] t)"
  let ?t3 = "((replace ''  '' '' '') ^^ 10) ?t2"
  have "filter ?P (unwrapText t) = filter ?P (replace [CR] [NL] ?t3)"
    by (simp add: unwrapText_def Let_def replace_def filter_replace_ne)
  also have "\<dots> = map ?m (filter ?P ?t3)"
    by (simp add: replace_def replace_ne_char filter_map_cr)
  also have "filter ?P ?t3 = filter ?P ?t2"
    by (rule filter_funpow_replace) simp_all
  also have "?t2 = filter (\<lambda>x. x \<noteq> NL) (lstrip t)"
    by (simp add: replace_def replace_ne_delete lstrip_filter_NL)
  finally show ?thesis by (simp add: conj_commute)
qed

lemma count_filter_blank:
  "c \<noteq> CHR '' '' \<Longrightarrow> count_list (filter (\<lambda>c. c \<noteq> CHR '' '') s) c = count_list s c"
  by (induction s) auto

lemma count_map_cr: "count_list (map (\<lambda>x. if x = CR then NL else x) s) NL = count_list s CR + count_list s NL"
  by (induction s) auto

lemma count_filter_other: "count_list (filter (\<lambda>c. c \<noteq> CHR '' '' \<and> c \<noteq> NL) s) CR = count_list s CR"
  by (induction s) auto

lemma count_filter_self: "count_list (filter (\<lambda>c. c \<noteq> CHR '' '' \<and> c \<noteq> NL) s) NL = 0"
  by (induction s) auto

text \<open>
  Claim C9, amended: for every input, the result of \<^verbatim>\<open>unwrapText\<close> contains no
  carriage return; it contains a newline if and only if a carriage return is left
  after the leading whitespace of the input is stripped; and the newlines of the
  result are as many as the carriage returns left after that stripping: every \<^verbatim>\<open>\n\<close>
  of the input is removed, and every \<^verbatim>\<open>\r\<close> that comes after a character that is not
  whitespace becomes a \<^verbatim>\<open>\n\<close>.
\<close>

theorem unwrapText_newlines:
  "CR \<notin> set (unwrapText t)
   \<and> (NL \<in> set (unwrapText t) \<longleftrightarrow> CR \<in> set (lstrip t))
   \<and> count_list (unwrapText t) NL = count_list (lstrip t) CR"
proof -
  have c: "count_list (unwrapText t) NL = count_list (lstrip t) CR"
    using count_filter_blank [of NL "unwrapText t"]
    by (simp add: unwrapText_skeleton count_map_cr count_filter_other count_filter_self)
  have "CR \<notin> set (filter (\<lambda>c. c \<noteq> CHR '' '') (unwrapText t))"
    unfolding unwrapText_skeleton by auto
  then have a: "CR \<notin> set (unwrapText t)" by simp
  from c have b: "NL \<in> set (unwrapText t) \<longleftrightarrow> CR \<in> set (lstrip t)"
    by (metis count_list_0_iff)
  from a b c show ?thesis by simp
qed

text \<open>
  Claim C9 as stated fails at the input \<^verbatim>\<open>"\rabc"\<close>: \<^verbatim>\<open>lstrip\<close> removes the leading
  carriage return, so the input contains a carriage return and the result \<^verbatim>\<open>"abc"\<close>
  contains no newline.
\<close>

theorem unwrapText_leading_CR:
  "\<not> (NL \<in> set (unwrapText (CR # ''abc'')) \<longleftrightarrow> CR \<in> set (CR # ''abc''))"
  by (simp add: unwrapText_def replace_def lstrip_def isspace_def numeral_eq_Suc)

section \<open>split and join\<close>

lemma split_not_Nil: "split c s \<noteq> []"
  by (induction s) (auto split: list.splits)

lemma split_parts_sep_free: "x \<in> set (split c s) \<Longrightarrow> c \<notin> set x"
  by (induction s arbitrary: x) (auto split: list.splits if_splits)

lemma split_parts_subset: "x \<in> set (split c s) \<Longrightarrow> set x \<subseteq> set s"
proof (induction s arbitrary: x)
  case Nil
  then show ?case by simp
next
  case (Cons a s)
  obtain p ps where sp: "split c s = p # ps"
    using split_not_Nil [of c s] by (cases "split c s") auto
  have "set p \<subseteq> set s" using Cons.IH [of p] sp by simp
  moreover have "\<And>y. y \<in> set ps \<Longrightarrow> set y \<subseteq> set s" using Cons.IH sp by simp
  ultimately show ?case using Cons.prems sp by (auto split: if_splits)
qed

lemma split_sep_free: "c \<notin> set x \<Longrightarrow> split c x = [x]"
  by (induction x) auto

lemma split_append_sep: "c \<notin> set x \<Longrightarrow> split c (x @ c # r) = x # split c r"
  by (induction x) (auto split: list.splits)

lemma join_Cons: "join sep (x # xs) = (if xs = [] then x else x @ sep @ join sep xs)"
  by (cases xs) simp_all

lemma split_join:
  "xs \<noteq> [] \<Longrightarrow> \<forall>x\<in>set xs. c \<notin> set x \<Longrightarrow> split c (join [c] xs) = xs"
proof (induction xs)
  case Nil
  then show ?case by simp
next
  case (Cons x xs)
  show ?case
  proof (cases "xs = []")
    case True
    with Cons.prems show ?thesis by (simp add: split_sep_free)
  next
    case False
    with Cons show ?thesis by (simp add: join_Cons split_append_sep)
  qed
qed

lemma sep_in_join: "2 \<le> length xs \<Longrightarrow> c \<in> set sep \<Longrightarrow> c \<in> set (join sep xs)"
  by (induction sep xs rule: join.induct) auto

lemma count_join: "2 \<le> length xs \<Longrightarrow> count_list (join [c] xs) c \<noteq> 0"
  by (simp add: count_list_0_iff sep_in_join)

lemma set_join: "set (join sep xs) \<subseteq> set sep \<union> \<Union> (set ` set xs)"
  by (induction sep xs rule: join.induct) auto

lemma replace_absent: "c \<notin> set s \<Longrightarrow> replace [c] new s = s"
  by (induction s) (auto simp: replace_def)

lemma getShortcut_stored:
  assumes "map_of cfg k = Some (join '','' xs)" and "2 \<le> length xs"
    and "\<forall>x\<in>set xs. CHR '','' \<notin> set x"
  shows "getShortcut cfg k = xs"
proof -
  from assms(2) have "xs \<noteq> []" by auto
  with assms show ?thesis
    using count_join [of xs "CHR '',''"] split_join [of xs "CHR '',''"]
    by (simp add: getShortcut_def)
qed

lemma getShortcut_comma_free: "x \<in> set (getShortcut cfg k) \<Longrightarrow> CHR '','' \<notin> set x"
  by (auto simp: getShortcut_def count_list_0_iff dest: split_parts_sep_free
      split: option.splits if_splits)

lemma getShortcut_subset:
  "map_of cfg k = Some v \<Longrightarrow> x \<in> set (getShortcut cfg k) \<Longrightarrow> set x \<subseteq> set v"
  by (auto simp: getShortcut_def dest: split_parts_subset split: if_splits)

lemma getShortcut_map_of: "map_of cfg1 k = map_of cfg2 k \<Longrightarrow> getShortcut cfg1 k = getShortcut cfg2 k"
  by (simp add: getShortcut_def)


section \<open>onAccept\<close>

lemma lower_eq_Nil [simp]: "lower s = [] \<longleftrightarrow> s = []" "[] = lower s \<longleftrightarrow> s = []"
  by (auto simp: lower_def)

lemma no_spaces_lookup: "no_spaces cfg \<Longrightarrow> map_of cfg k = Some v \<Longrightarrow> CHR '' '' \<notin> set v"
  by (auto simp: no_spaces_def list_all_iff dest: map_of_SomeD)

lemma no_spaces_update:
  "no_spaces cfg \<Longrightarrow> CHR '' '' \<notin> set v \<Longrightarrow> no_spaces (AList.update k v cfg)"
  by (induction cfg) (auto simp: no_spaces_def)

lemma no_spaces_delete: "no_spaces cfg \<Longrightarrow> no_spaces (AList.delete k cfg)"
  by (induction cfg) (auto simp: no_spaces_def)

lemma getShortcut_space_free:
  assumes "no_spaces cfg" and "x \<in> set (getShortcut cfg k)"
  shows "CHR '' '' \<notin> set x"
proof (cases "map_of cfg k")
  case None
  with assms(2) show ?thesis by (simp add: getShortcut_def)
next
  case (Some v)
  with assms show ?thesis
    using getShortcut_subset [OF Some assms(2)] no_spaces_lookup [OF assms(1) Some] by auto
qed

lemma length_cleared [simp]: "length (cleared s sc) = length sc"
  by (simp add: cleared_def Let_def)

lemma set_cleared: "set (cleared s sc) \<subseteq> insert [] (set sc)"
  unfolding cleared_def Let_def
  by (auto dest!: set_update_subset_insert [THEN subsetD])

lemma cleared_nth:
  "2 \<le> length sc \<Longrightarrow> s \<noteq> [] \<Longrightarrow>
     lower (cleared s sc ! 0) \<noteq> lower s \<and> lower (cleared s sc ! 1) \<noteq> lower s"
proof -
  assume "2 \<le> length sc" and s: "s \<noteq> []"
  then obtain x y r where "sc = x # y # r"
    by (cases sc; cases "tl sc") auto
  with s show ?thesis by (auto simp: cleared_def Let_def)
qed

lemma remove_elsewhere_cleared:
  "remove_elsewhere s cfg key =
     (let sc = getShortcut cfg key
      in if lower (sc ! 0) = lower s \<or> lower (sc ! 1) = lower s
         then (let tmp = replace '' '' [] (join '','' (cleared s sc))
               in if length tmp = 1 then AList.delete key cfg else AList.update key tmp cfg)
         else cfg)"
  by (simp add: remove_elsewhere_def cleared_def Let_def)

lemma joined_space_free:
  assumes "no_spaces cfg"
  shows "CHR '' '' \<notin> set (join '','' (cleared s (getShortcut cfg key)))"
proof
  assume "CHR '' '' \<in> set (join '','' (cleared s (getShortcut cfg key)))"
  then obtain x where "x \<in> set (cleared s (getShortcut cfg key))" "CHR '' '' \<in> set x"
    using set_join [of "'',''" "cleared s (getShortcut cfg key)"] by auto
  then show False
    using set_cleared [of s "getShortcut cfg key"] getShortcut_space_free [OF assms] by auto
qed

lemma remove_elsewhere_other:
  "k \<noteq> key \<Longrightarrow> map_of (remove_elsewhere s cfg key) k = map_of cfg k"
  by (simp add: remove_elsewhere_cleared Let_def update_conv' delete_conv')

lemma remove_elsewhere_no_spaces:
  assumes "no_spaces cfg"
  shows "no_spaces (remove_elsewhere s cfg key)"
  using assms joined_space_free [OF assms, of s key]
  by (simp add: remove_elsewhere_cleared Let_def replace_absent no_spaces_update no_spaces_delete)

lemma remove_elsewhere_unused:
  assumes "s \<noteq> []" and "no_spaces cfg"
  shows "unused s (remove_elsewhere s cfg key) key"
proof (cases "lower (getShortcut cfg key ! 0) = lower s \<or> lower (getShortcut cfg key ! 1) = lower s")
  case False
  then show ?thesis by (simp add: remove_elsewhere_cleared unused_def)
next
  case True
  let ?tmp = "cleared s (getShortcut cfg key)"
  let ?j = "join '','' ?tmp"
  have len: "2 \<le> length ?tmp" by (simp add: getShortcut_at_least_two)
  have r: "replace '' '' [] ?j = ?j"
    using joined_space_free [OF assms(2)] by (simp add: replace_absent)
  show ?thesis
  proof (cases "length ?j = 1")
    case one: True
    with True r have "map_of (remove_elsewhere s cfg key) key = None"
      by (simp add: remove_elsewhere_cleared Let_def delete_conv')
    then show ?thesis using assms(1) by (simp add: unused_def getShortcut_absent)
  next
    case more: False
    with True r have "map_of (remove_elsewhere s cfg key) key = Some ?j"
      by (simp add: remove_elsewhere_cleared Let_def update_conv')
    moreover have "\<forall>x\<in>set ?tmp. CHR '','' \<notin> set x"
      using set_cleared [of s "getShortcut cfg key"] getShortcut_comma_free [of _ cfg key] by auto
    ultimately have "getShortcut (remove_elsewhere s cfg key) key = ?tmp"
      using len by (simp add: getShortcut_stored)
    then show ?thesis
      using cleared_nth [OF getShortcut_at_least_two assms(1), of cfg key]
      by (simp add: unused_def)
  qed
qed

lemma remove_elsewhere_keeps_unused:
  assumes "s \<noteq> []" and "no_spaces cfg" and "unused s cfg k"
  shows "unused s (remove_elsewhere s cfg key) k"
proof (cases "k = key")
  case True
  with assms show ?thesis by (simp add: remove_elsewhere_unused)
next
  case False
  then have "getShortcut (remove_elsewhere s cfg key) k = getShortcut cfg k"
    by (intro getShortcut_map_of remove_elsewhere_other)
  with assms(3) show ?thesis by (simp add: unused_def)
qed

lemma foldl_remove_no_spaces:
  "no_spaces cfg \<Longrightarrow> no_spaces (foldl (remove_elsewhere s) cfg keys)"
  by (induction keys arbitrary: cfg) (simp_all add: remove_elsewhere_no_spaces)

lemma foldl_remove_other:
  "k \<notin> set keys \<Longrightarrow> map_of (foldl (remove_elsewhere s) cfg keys) k = map_of cfg k"
  by (induction keys arbitrary: cfg) (simp_all add: remove_elsewhere_other)

lemma foldl_remove_unused:
  assumes "s \<noteq> []" and "no_spaces cfg" and "k \<in> set keys \<or> unused s cfg k"
  shows "unused s (foldl (remove_elsewhere s) cfg keys) k"
  using assms(2,3)
proof (induction keys arbitrary: cfg)
  case Nil
  then show ?case by simp
next
  case (Cons key keys)
  have ns: "no_spaces (remove_elsewhere s cfg key)"
    using Cons.prems(1) by (rule remove_elsewhere_no_spaces)
  have "k \<in> set keys \<or> unused s (remove_elsewhere s cfg key) k"
  proof (cases "k = key")
    case True
    then show ?thesis using remove_elsewhere_unused [OF assms(1) Cons.prems(1)] by simp
  next
    case False
    with Cons.prems(2) show ?thesis
      using remove_elsewhere_keeps_unused [OF assms(1) Cons.prems(1)] by auto
  qed
  with ns show ?case using Cons.IH by simp
qed

lemma removed_everywhere:
  assumes "s \<noteq> []" and "no_spaces cfg"
  shows "unused s (foldl (remove_elsewhere s) cfg (map fst cfg)) k"
proof (cases "k \<in> set (map fst cfg)")
  case True
  then show ?thesis using foldl_remove_unused [OF assms] by simp
next
  case False
  then have "map_of cfg k = None" by (simp add: map_of_eq_None_iff)
  with False have "map_of (foldl (remove_elsewhere s) cfg (map fst cfg)) k = None"
    by (simp add: foldl_remove_other)
  then show ?thesis using assms(1) by (simp add: unused_def getShortcut_absent)
qed

text \<open>
  Claim C1, amended: let \<^verbatim>\<open>onAccept\<close> run with a non-empty entered shortcut \<open>s\<close> that
  contains no comma, a non-empty \<^verbatim>\<open>_fullname\<close> \<open>n\<close>, and a dictionary none of whose
  stored strings contains a space. Afterwards no key of \<^verbatim>\<open>iep.config.shortcuts\<close> other
  than \<open>n\<close> has \<open>s\<close>, compared ignoring case, as its primary or secondary shortcut; \<open>n\<close>
  is a key, its entry has \<open>s\<close> at the primary position when the dialog edits the primary
  shortcut and at the secondary position otherwise, and the other of the two positions
  of \<open>n\<close> is not \<open>s\<close> either.
\<close>

theorem onAccept_unique:
  assumes "fullname self \<noteq> []" and "line self \<noteq> []" and "CHR '','' \<notin> set (line self)"
    and "no_spaces cfg"
  shows "(\<forall>k\<in>set (map fst (onAccept cfg self)). k \<noteq> fullname self \<longrightarrow>
            lower (getShortcut (onAccept cfg self) k ! 0) \<noteq> lower (line self)
            \<and> lower (getShortcut (onAccept cfg self) k ! 1) \<noteq> lower (line self))
         \<and> fullname self \<in> set (map fst (onAccept cfg self))
         \<and> getShortcut (onAccept cfg self) (fullname self) ! (if isprimary self then 0 else 1)
             = line self
         \<and> lower (getShortcut (onAccept cfg self) (fullname self) ! (if isprimary self then 1 else 0))
             \<noteq> lower (line self)"
proof -
  let ?s = "line self" and ?n = "fullname self"
  let ?i = "if isprimary self then 0 else 1 :: nat"
  let ?cfg1 = "foldl (remove_elsewhere ?s) cfg (map fst cfg)"
  let ?cur = "(getShortcut ?cfg1 ?n)[?i := ?s]"
  have cur: "(if map_of ?cfg1 ?n \<noteq> None then getShortcut ?cfg1 ?n else [[], []]) = getShortcut ?cfg1 ?n"
    by (auto simp: getShortcut_absent)
  have acc: "onAccept cfg self = AList.update ?n (join '','' ?cur) ?cfg1"
    using assms(1) cur by (simp add: onAccept_def Let_def)
  have un: "\<And>k. unused ?s ?cfg1 k"
    using removed_everywhere [OF assms(2,4)] .
  have others: "\<And>k. k \<noteq> ?n \<Longrightarrow> getShortcut (onAccept cfg self) k = getShortcut ?cfg1 k"
    by (rule getShortcut_map_of) (simp add: acc update_conv')
  have len: "2 \<le> length ?cur" by (simp add: getShortcut_at_least_two)
  have "\<forall>x\<in>set ?cur. CHR '','' \<notin> set x"
    using assms(3) getShortcut_comma_free [of _ ?cfg1 ?n]
    by (auto dest!: set_update_subset_insert [THEN subsetD])
  moreover have "map_of (onAccept cfg self) ?n = Some (join '','' ?cur)"
    by (simp add: acc update_conv')
  ultimately have own: "getShortcut (onAccept cfg self) ?n = ?cur"
    using len by (simp add: getShortcut_stored)
  obtain x y r where sc: "getShortcut ?cfg1 ?n = x # y # r"
    using getShortcut_at_least_two [of ?cfg1 ?n]
    by (cases "getShortcut ?cfg1 ?n"; cases "tl (getShortcut ?cfg1 ?n)") auto
  have a: "\<forall>k\<in>set (map fst (onAccept cfg self)). k \<noteq> ?n \<longrightarrow>
            lower (getShortcut (onAccept cfg self) k ! 0) \<noteq> lower ?s
            \<and> lower (getShortcut (onAccept cfg self) k ! 1) \<noteq> lower ?s"
    using un others by (simp add: unused_def)
  have b: "?n \<in> set (map fst (onAccept cfg self))"
    by (simp add: acc AList.update_keys)
  have c: "getShortcut (onAccept cfg self) ?n ! ?i = ?s"
    unfolding own using sc by simp
  have d: "lower (getShortcut (onAccept cfg self) ?n ! (if isprimary self then 1 else 0)) \<noteq> lower ?s"
    unfolding own using sc un [of ?n] by (simp add: unused_def)
  from a b c d show ?thesis by blast
qed

theorem onAccept_unique_witness:
  "fullname ex_dialog \<noteq> [] \<and> line ex_dialog \<noteq> [] \<and> CHR '','' \<notin> set (line ex_dialog)
   \<and> no_spaces ex_config
   \<and> onAccept ex_config ex_dialog =
       [(''file__save'', ''Ctrl+S''), (''edit__copy'', ''Ctrl+C,''),
        (''file__save_as'', ''Ctrl+Shift+S''), (''file__open'', ''ctrl+ins,'')]
   \<and> getShortcut (onAccept ex_config ex_dialog) ''file__open'' ! 0 = ''ctrl+ins''
   \<and> lower (getShortcut (onAccept ex_config ex_dialog) ''edit__copy'' ! 1) \<noteq> lower ''ctrl+ins''"
proof -
  have 1: "fullname ex_dialog \<noteq> []" and 2: "line ex_dialog \<noteq> []"
    and 3: "CHR '','' \<notin> set (line ex_dialog)"
    by (simp_all add: ex_dialog_def)
  have 4: "no_spaces ex_config" by (simp add: no_spaces_def ex_config_def)
  have 5: "onAccept ex_config ex_dialog =
       [(''file__save'', ''Ctrl+S''), (''edit__copy'', ''Ctrl+C,''),
        (''file__save_as'', ''Ctrl+Shift+S''), (''file__open'', ''ctrl+ins,'')]"
    by code_simp
  have 6: "''edit__copy'' \<in> set (map fst (onAccept ex_config ex_dialog))" by (simp add: 5)
  have 7: "''edit__copy'' \<noteq> fullname ex_dialog" "isprimary ex_dialog"
    "fullname ex_dialog = ''file__open''" "line ex_dialog = ''ctrl+ins''"
    by (simp_all add: ex_dialog_def)
  from onAccept_unique [OF 1 2 3 4] 6 7
  have "getShortcut (onAccept ex_config ex_dialog) ''file__open'' ! 0 = ''ctrl+ins''"
    and "lower (getShortcut (onAccept ex_config ex_dialog) ''edit__copy'' ! 1) \<noteq> lower ''ctrl+ins''"
    by auto
  with 1 2 3 4 5 show ?thesis by blast
qed

text \<open>
  Claim C1 as stated fails when the entered shortcut is empty (the line edit after
  Clear): applying it to the action \<open>b\<close> with the dictionary \<^verbatim>\<open>{'a': 'Ctrl+A'}\<close> leaves
  the key \<open>a\<close>, which is not \<open>b\<close>, with the entry \<^verbatim>\<open>'Ctrl+A,'\<close>, whose secondary shortcut
  is the entered string.
\<close>

theorem onAccept_empty_shortcut:
  "onAccept [(''a'', ''Ctrl+A'')]
       \<lparr>fullname = ''b'', intro = [], isprimary = True, line = [], label = []\<rparr>
     = [(''a'', ''Ctrl+A,''), (''b'', '','')]
   \<and> ''a'' \<noteq> ''b''
   \<and> lower (getShortcut [(''a'', ''Ctrl+A,''), (''b'', '','')] ''a'' ! 1) = lower []"
  by code_simp

section \<open>expandVersion\<close>

lemma length_fixed [simp]: "length (fixed k n) = k"
  by (induction k arbitrary: n) simp_all

lemma digit_char_0: "digit_char 0 = CHR ''0''"
  by (simp add: digit_char_def char_of_def bit_0)

lemma fixed_zero: "fixed k 0 = replicate k (CHR ''0'')"
  by (induction k) (simp_all add: digit_char_0 replicate_append_same)

lemma str_nat_small: "n < 10 \<Longrightarrow> str_nat n = [digit_char n]"
  by (simp add: str_nat.simps [of n])

lemma str_nat_large: "\<not> n < 10 \<Longrightarrow> str_nat n = str_nat (n div 10) @ [digit_char (n mod 10)]"
  by (subst str_nat.simps) simp

lemma pad_str_nat:
  "n < 10 ^ Suc k \<Longrightarrow> replicate (Suc k - length (str_nat n)) (CHR ''0'') @ str_nat n = fixed (Suc k) n"
proof (induction k arbitrary: n)
  case 0
  then show ?case by (simp add: str_nat_small)
next
  case (Suc k)
  show ?case
  proof (cases "n < 10")
    case True
    then show ?thesis by (simp add: str_nat_small fixed_zero replicate_append_same)
  next
    case False
    from Suc.prems have "n div 10 < 10 ^ Suc k" by simp
    from Suc.IH [OF this] show ?thesis
      by (simp add: str_nat_large [OF False])
  qed
qed


lemma of_char_digit: "d < 10 \<Longrightarrow> (of_char (digit_char d) :: nat) = 48 + d"
  by (simp add: digit_char_def)

lemma digit_char_inj: "a < 10 \<Longrightarrow> b < 10 \<Longrightarrow> digit_char a = digit_char b \<longleftrightarrow> a = b"
proof
  assume "a < 10" "b < 10" "digit_char a = digit_char b"
  then have "(of_char (digit_char a) :: nat) = of_char (digit_char b)" by simp
  with \<open>a < 10\<close> \<open>b < 10\<close> show "a = b" by (simp add: of_char_digit)
qed simp

lemma str_less_append:
  "length xs = length ys \<Longrightarrow>
     str_less (xs @ us) (ys @ vs) \<longleftrightarrow> str_less xs ys \<or> (xs = ys \<and> str_less us vs)"
  by (induction xs ys rule: list_induct2) auto

lemma str_less_digit:
  "a < 10 \<Longrightarrow> b < 10 \<Longrightarrow> str_less [digit_char a] [digit_char b] \<longleftrightarrow> a < b"
  by (simp add: of_char_digit)


lemma base10_less:
  "b < 10 \<Longrightarrow> d < 10 \<Longrightarrow> (10 * a + b < 10 * c + (d::nat)) \<longleftrightarrow> a < c \<or> (a = c \<and> b < d)"
  by linarith

lemma base10_eq:
  assumes "b < 10" and "d < 10"
  shows "(10 * a + b = 10 * c + (d::nat)) \<longleftrightarrow> a = c \<and> b = d"
proof -
  have "(10 * a + b = 10 * c + d) \<longleftrightarrow>
          \<not> 10 * a + b < 10 * c + d \<and> \<not> 10 * c + d < 10 * a + b"
    by auto
  also have "\<dots> \<longleftrightarrow> a = c \<and> b = d"
    unfolding base10_less [OF assms] base10_less [OF assms(2,1)] by auto
  finally show ?thesis .
qed

lemma divmod10_less:
  "(n::nat) < m \<longleftrightarrow> n div 10 < m div 10 \<or> (n div 10 = m div 10 \<and> n mod 10 < m mod 10)"
  using base10_less [of "n mod 10" "m mod 10" "n div 10" "m div 10"] by simp

lemma divmod10_eq: "(n::nat) = m \<longleftrightarrow> n div 10 = m div 10 \<and> n mod 10 = m mod 10"
  using base10_eq [of "n mod 10" "m mod 10" "n div 10" "m div 10"] by simp

lemma fixed_order:
  "n < 10 ^ k \<Longrightarrow> m < 10 ^ k \<Longrightarrow>
     (str_less (fixed k n) (fixed k m) \<longleftrightarrow> n < m) \<and> (fixed k n = fixed k m \<longleftrightarrow> n = m)"
proof (induction k arbitrary: n m)
  case 0
  then show ?case by simp
next
  case (Suc k)
  from Suc.prems have d: "n div 10 < 10 ^ k" "m div 10 < 10 ^ k" by simp_all
  have r: "n mod 10 < 10" "m mod 10 < 10" by simp_all
  from Suc.IH [OF d]
  have ih1: "str_less (fixed k (n div 10)) (fixed k (m div 10)) \<longleftrightarrow> n div 10 < m div 10"
    and ih2: "fixed k (n div 10) = fixed k (m div 10) \<longleftrightarrow> n div 10 = m div 10"
    by blast+
  have "str_less (fixed (Suc k) n) (fixed (Suc k) m) \<longleftrightarrow>
          n div 10 < m div 10 \<or> (n div 10 = m div 10 \<and> n mod 10 < m mod 10)"
    by (simp only: fixed.simps str_less_append length_fixed ih1 ih2 str_less_digit [OF r])
  moreover have "fixed (Suc k) n = fixed (Suc k) m \<longleftrightarrow>
          n div 10 = m div 10 \<and> n mod 10 = m mod 10"
    by (simp only: fixed.simps append_eq_append_conv length_fixed ih2 list.inject
        digit_char_inj [OF r] simp_thms)
  ultimately show ?case
    using divmod10_less [of n m] divmod10_eq [of n m] by blast
qed


lemma isdigit_not_space: "isdigit c \<Longrightarrow> \<not> int_space c"
  by (auto simp: isdigit_def int_space_def Let_def)

lemma strip_digits: "list_all isdigit s \<Longrightarrow> dropWhile int_space s = s"
  by (cases s) (simp_all add: isdigit_not_space)

lemma digits_us_all: "s \<noteq> [] \<Longrightarrow> list_all isdigit s \<Longrightarrow> digits_us s"
proof (induction s rule: digits_us.induct)
  case (3 c d cs)
  then have "d \<noteq> CHR ''_''" by (auto simp: isdigit_def)
  with 3 show ?case by simp
qed simp_all

lemma hd_digit_no_sign: "s \<noteq> [] \<Longrightarrow> list_all isdigit s \<Longrightarrow> hd s \<noteq> CHR ''-'' \<and> hd s \<noteq> CHR ''+''"
  by (cases s) (auto simp: isdigit_def)

lemma py_int_digits:
  assumes "s \<noteq> []" and "list_all isdigit s"
  shows "py_int s = Some (int (dec_val s))"
proof -
  have "list_all isdigit (rev s)" using assms(2) by (simp add: list_all_iff)
  then have t: "rev (dropWhile int_space (rev (dropWhile int_space s))) = s"
    using assms(2) by (simp add: strip_digits)
  have f: "filter isdigit s = s" using assms(2) by (simp add: list_all_iff)
  show ?thesis
    using hd_digit_no_sign [OF assms] digits_us_all [OF assms] assms(1)
    by (simp add: py_int_def t f Let_def)
qed

lemma fmt05i_fixed:
  assumes "n < 100000"
  shows "fmt05i (int n) = fixed 5 n"
proof -
  have "n < 10 ^ Suc 4" using assms by simp
  from pad_str_nat [OF this] show ?thesis
    by (simp add: fmt05i_def del: fixed.simps)
qed

lemma expandVersion_fixed:
  assumes "numeric_version v"
  shows "expandVersion v = join ''.'' (map (fixed 5) (components v))"
proof -
  have "map (\<lambda>ver. case py_int ver of Some i \<Rightarrow> fmt05i i | None \<Rightarrow> ver) (split (CHR ''.'') v)
          = map (\<lambda>ver. fixed 5 (dec_val ver)) (split (CHR ''.'') v)"
    using assms
    by (intro map_cong refl) (auto simp: numeric_version_def list_all_iff py_int_digits fmt05i_fixed)
  then show ?thesis by (simp only: expandVersion_def components_def map_map comp_def)
qed


lemma join_fixed_order:
  assumes "length ns = length ms"
    and "\<forall>n\<in>set ns. n < 10 ^ k" and "\<forall>m\<in>set ms. m < 10 ^ k"
  shows "(str_less (join ''.'' (map (fixed k) ns)) (join ''.'' (map (fixed k) ms)) \<longleftrightarrow> ver_less ns ms)
         \<and> (join ''.'' (map (fixed k) ns) = join ''.'' (map (fixed k) ms) \<longleftrightarrow> ns = ms)"
  using assms
proof (induction ns ms rule: list_induct2)
  case Nil
  show ?case by simp
next
  case (Cons n ns m ms)
  from Cons.prems have b: "n < 10 ^ k" "m < 10 ^ k" by simp_all
  note fo = fixed_order [OF b]
  show ?case
  proof (cases "ns = []")
    case True
    with Cons.hyps have "ms = []" by simp
    with True fo show ?thesis by simp
  next
    case False
    with Cons.hyps have ne: "ms \<noteq> []" by auto
    from Cons.IH Cons.prems
    have ih: "str_less (join ''.'' (map (fixed k) ns)) (join ''.'' (map (fixed k) ms)) \<longleftrightarrow> ver_less ns ms"
      "join ''.'' (map (fixed k) ns) = join ''.'' (map (fixed k) ms) \<longleftrightarrow> ns = ms"
      by simp_all
    show ?thesis
      using False ne fo ih
      by (simp add: join_Cons str_less_append)
  qed
qed

text \<open>
  Claim C10: for two version strings with the same number of components between dots,
  every component a non-empty string of decimal digits with a value below 100000, the
  order of Python on the strings \<^verbatim>\<open>expandVersion(a)\<close> and \<^verbatim>\<open>expandVersion(b)\<close> agrees
  with the comparison of the component values from the first component on: the one is
  less, greater or equal exactly when the other is.
\<close>

theorem expandVersion_order:
  assumes "numeric_version a" and "numeric_version b"
    and "length (split (CHR ''.'') a) = length (split (CHR ''.'') b)"
  shows "(str_less (expandVersion a) (expandVersion b) \<longleftrightarrow> ver_less (components a) (components b))
         \<and> (str_less (expandVersion b) (expandVersion a) \<longleftrightarrow> ver_less (components b) (components a))
         \<and> (expandVersion a = expandVersion b \<longleftrightarrow> components a = components b)"
proof -
  have la: "\<forall>n\<in>set (components a). n < 10 ^ 5"
    using assms(1) by (auto simp: numeric_version_def components_def list_all_iff)
  have lb: "\<forall>n\<in>set (components b). n < 10 ^ 5"
    using assms(2) by (auto simp: numeric_version_def components_def list_all_iff)
  have len: "length (components a) = length (components b)"
    using assms(3) by (simp add: components_def)
  from join_fixed_order [OF len la lb] join_fixed_order [OF len [symmetric] lb la]
  show ?thesis
    unfolding expandVersion_fixed [OF assms(1)] expandVersion_fixed [OF assms(2)] by blast
qed


theorem expandVersion_order_witness:
  "numeric_version ''1.10.3'' \<and> numeric_version ''1.9.12''
   \<and> length (split (CHR ''.'') ''1.10.3'') = length (split (CHR ''.'') ''1.9.12'')
   \<and> components ''1.10.3'' = [1, 10, 3] \<and> components ''1.9.12'' = [1, 9, 12]
   \<and> str_less (expandVersion ''1.9.12'') (expandVersion ''1.10.3'')
   \<and> \<not> str_less (expandVersion ''1.10.3'') (expandVersion ''1.9.12'')"
proof -
  have 1: "numeric_version ''1.10.3''"
    by (simp add: numeric_version_def isdigit_def dec_val_def digit_val_def)
  have 2: "numeric_version ''1.9.12''"
    by (simp add: numeric_version_def isdigit_def dec_val_def digit_val_def)
  have 3: "length (split (CHR ''.'') ''1.10.3'') = length (split (CHR ''.'') ''1.9.12'')"
    by simp
  have 4: "components ''1.10.3'' = [1, 10, 3]"
    by (simp add: components_def dec_val_def digit_val_def)
  have 5: "components ''1.9.12'' = [1, 9, 12]"
    by (simp add: components_def dec_val_def digit_val_def)
  from expandVersion_order [OF 1 2 3]
  have "str_less (expandVersion ''1.9.12'') (expandVersion ''1.10.3'')"
    and "\<not> str_less (expandVersion ''1.10.3'') (expandVersion ''1.9.12'')"
    unfolding 4 5 by simp_all
  with 1 2 3 4 5 show ?thesis by blast
qed

end
